theory Spec2Isabelle
  imports Complex_Main "HOL-Library.Sublist"
begin

section \<open>Python values used by the classifier\<close>

text \<open>
  A cell of an object column of the uploaded CSV is a Python \<^verbatim>\<open>str\<close> or the missing
  value \<^verbatim>\<open>nan\<close>. A string is the list of the bytes of its UTF-8 encoding; one string
  occurs in another exactly when its bytes occur there in a row.
\<close>

datatype cell = NaN | Str string

text \<open>
  \<^verbatim>\<open>str.lower\<close> follows the Unicode case mapping, which is not a map of single
  characters. Every function below that calls it takes it as the parameter \<open>lower\<close>, and
  the theorems hold for whatever function that is. On a string of ASCII characters
  \<^verbatim>\<open>str.lower\<close> turns the letters A to Z into a to z and changes nothing else: that is
  \<open>ascii_lower\<close>, which stands for \<open>lower\<close> where a statement, a keyword or a column name
  is written out, all of them ASCII. \<open>lower_ascii_ok\<close> says of a function that it agrees
  with \<open>ascii_lower\<close> on the ASCII strings, as \<^verbatim>\<open>str.lower\<close> does.
\<close>

definition ascii_lower_char :: "char \<Rightarrow> char" where
  "ascii_lower_char c =
     (case map_of (zip ''ABCDEFGHIJKLMNOPQRSTUVWXYZ'' ''abcdefghijklmnopqrstuvwxyz'') c of
        Some l \<Rightarrow> l
      | None \<Rightarrow> c)"

definition ascii_lower :: "string \<Rightarrow> string" where
  "ascii_lower s = map ascii_lower_char s"

definition is_ascii :: "char \<Rightarrow> bool" where
  "is_ascii c \<longleftrightarrow> \<not> digit7 c"

definition lower_ascii_ok :: "(string \<Rightarrow> string) \<Rightarrow> bool" where
  "lower_ascii_ok lower \<longleftrightarrow> (\<forall>s. list_all is_ascii s \<longrightarrow> lower s = ascii_lower s)"

text \<open>\<^verbatim>\<open>needle in hay\<close> on strings: some suffix of \<open>hay\<close> starts with \<open>needle\<close>.\<close>

fun str_contains :: "string \<Rightarrow> string \<Rightarrow> bool" where
  "str_contains needle [] = (needle = [])"
| "str_contains needle (c # hay) = (prefix needle (c # hay) \<or> str_contains needle hay)"

text \<open>\<^verbatim>\<open>str(x)\<close> of a cell; \<^verbatim>\<open>str(float('nan'))\<close> is \<^verbatim>\<open>'nan'\<close>.\<close>

fun str_of :: "cell \<Rightarrow> string" where
  "str_of NaN = ''nan''"
| "str_of (Str s) = s"

text \<open>\<^verbatim>\<open>pd.isna(text) or not text\<close>: the cell is missing or the empty string.\<close>

fun isna_or_not :: "cell \<Rightarrow> bool" where
  "isna_or_not NaN = True"
| "isna_or_not (Str s) = (s = [])"

section \<open>Dictionaries in insertion order\<close>

text \<open>
  A Python \<^verbatim>\<open>dict\<close> iterates in insertion order, so it is an association list.
  \<^verbatim>\<open>d[k] = v\<close> replaces the value of a key already there, in place, and appends a new key;
  \<^verbatim>\<open>d.get(k, default)\<close> is a \<open>case\<close> on \<open>map_of d k\<close>.
\<close>

fun dict_setitem :: "('k \<times> 'v) list \<Rightarrow> 'k \<Rightarrow> 'v \<Rightarrow> ('k \<times> 'v) list" where
  "dict_setitem [] k v = [(k, v)]"
| "dict_setitem ((k', v') # d) k v =
     (if k' = k then (k, v) # d else (k', v') # dict_setitem d k v)"

definition dict_keys :: "('k \<times> 'v) list \<Rightarrow> 'k list" where
  "dict_keys d = map fst d"

section \<open>classify\_statement (pages/1\_claude\_dictionary.py)\<close>

text \<open>
  The per-tactic result \<^verbatim>\<open>{'present': ..., 'count': ..., 'matches': ...}\<close> has three
  fixed keys and is a record. The session's dictionaries map a tactic to its keyword list.
\<close>

record match_result =
  present :: bool
  count :: nat
  matches :: "string list"

type_synonym dictionaries = "(string \<times> string list) list"

type_synonym classification = "(string \<times> match_result) list"

text \<open>
  The inner loop \<^verbatim>\<open>for keyword in keywords: if keyword.lower() in text_lower:
  matches.append(keyword)\<close>; the list \<^verbatim>\<open>matches\<close> is the accumulator \<open>found\<close>.
\<close>

fun keyword_loop :: "(string \<Rightarrow> string) \<Rightarrow> string \<Rightarrow> string list \<Rightarrow> string list \<Rightarrow> string list" where
  "keyword_loop lower text_lower [] found = found"
| "keyword_loop lower text_lower (keyword # keywords) found =
     keyword_loop lower text_lower keywords
       (if str_contains (lower keyword) text_lower then found @ [keyword] else found)"

text \<open>
  The outer loop \<^verbatim>\<open>for tactic, keywords in dictionaries.items(): ... results[tactic] = {...}\<close>,
  with \<open>results\<close> as the accumulator.
\<close>

fun tactic_loop :: "(string \<Rightarrow> string) \<Rightarrow> string \<Rightarrow> dictionaries \<Rightarrow> classification \<Rightarrow> classification" where
  "tactic_loop lower text_lower [] results = results"
| "tactic_loop lower text_lower ((tactic, keywords) # items) results =
     (let found = keyword_loop lower text_lower keywords []
      in tactic_loop lower text_lower items
           (dict_setitem results tactic
              \<lparr>present = length found > 0, count = length found, matches = found\<rparr>))"

definition classify_statement :: "(string \<Rightarrow> string) \<Rightarrow> cell \<Rightarrow> dictionaries \<Rightarrow> classification" where
  "classify_statement lower text dictionaries =
     (if isna_or_not text then []
      else tactic_loop lower (lower (str_of text)) dictionaries [])"


text \<open>
  The dictionaries the page starts with (\<^verbatim>\<open>st.session_state.dictionaries\<close>, lines 15 to 28).
\<close>

definition default_dictionaries :: dictionaries where
  "default_dictionaries =
     [(''urgency_marketing'',
       [''limited'', ''limited time'', ''limited run'', ''limited edition'', ''order now'',
        ''last chance'', ''hurry'', ''while supplies last'', ''before they're gone'',
        ''selling out'', ''selling fast'', ''act now'', ''don't wait'', ''today only'',
        ''expires soon'', ''final hours'', ''almost gone'']),
      (''exclusive_marketing'',
       [''exclusive'', ''exclusively'', ''exclusive offer'', ''exclusive deal'',
        ''members only'', ''vip'', ''special access'', ''invitation only'',
        ''premium'', ''privileged'', ''limited access'', ''select customers'',
        ''insider'', ''private sale'', ''early access''])]"

section \<open>Errors and data frames\<close>

text \<open>Every exception the modelled code can raise is a value.\<close>

datatype error = IndexError | KeyError | AttributeError | TypeError | ZeroDivisionError
  | JSONDecodeError

definition err_bind :: "error + 'a \<Rightarrow> ('a \<Rightarrow> error + 'b) \<Rightarrow> error + 'b" where
  "err_bind m f = (case m of Inl e \<Rightarrow> Inl e | Inr x \<Rightarrow> f x)"

text \<open>
  The values a column of the classified frame holds: an input cell, a boolean, a count, the
  dict \<^verbatim>\<open>classify_statement\<close> returned, or a list of labels.
\<close>

datatype pyval = Cell cell | PBool bool | PInt nat | PDict classification | PList "string list"

text \<open>
  A \<^verbatim>\<open>DataFrame\<close> is its columns in order, each a name and the values of its rows.
  \<^verbatim>\<open>df[name] = values\<close> is \<open>dict_setitem\<close>: an existing column is overwritten where it
  stands, a new one is appended. \<^verbatim>\<open>df[name]\<close> raises \<^verbatim>\<open>KeyError\<close> for an unknown name.
\<close>

type_synonym 'a frame = "(string \<times> 'a list) list"


definition frame_getitem :: "'a frame \<Rightarrow> string \<Rightarrow> error + 'a list" where
  "frame_getitem df col = (case map_of df col of Some vs \<Rightarrow> Inr vs | None \<Rightarrow> Inl KeyError)"

definition len_frame :: "'a frame \<Rightarrow> nat" where
  "len_frame df = (case df of [] \<Rightarrow> 0 | c # _ \<Rightarrow> length (snd c))"

definition as_pyval_frame :: "cell frame \<Rightarrow> pyval frame" where
  "as_pyval_frame df = map (\<lambda>c. (fst c, map Cell (snd c))) df"

text \<open>\<^verbatim>\<open>series.apply(f)\<close>, stopping at the first row where \<open>f\<close> raises.\<close>

fun series_apply :: "('a \<Rightarrow> error + 'b) \<Rightarrow> 'a list \<Rightarrow> error + 'b list" where
  "series_apply f [] = Inr []"
| "series_apply f (x # xs) =
     err_bind (f x) (\<lambda>y. err_bind (series_apply f xs) (\<lambda>ys. Inr (y # ys)))"

text \<open>\<^verbatim>\<open>sep.join(xs)\<close>.\<close>

fun join :: "string \<Rightarrow> string list \<Rightarrow> string" where
  "join sep [] = []"
| "join sep [x] = x"
| "join sep (x # y # ys) = x @ sep @ join sep (y # ys)"

section \<open>process\_data (pages/1\_claude\_dictionary.py)\<close>

text \<open>
  Lines 58 to 65: the first column whose lower-cased name contains \<^verbatim>\<open>'statement'\<close> or
  \<^verbatim>\<open>'text'\<close>; without one, \<^verbatim>\<open>df.columns[1]\<close> when there are two columns or more, else
  \<^verbatim>\<open>df.columns[0]\<close>, which raises \<^verbatim>\<open>IndexError\<close> on a frame without columns.
\<close>

fun find_statement_col :: "(string \<Rightarrow> string) \<Rightarrow> string list \<Rightarrow> string option" where
  "find_statement_col lower [] = None"
| "find_statement_col lower (col # cols) =
     (if str_contains ''statement'' (lower col) \<or> str_contains ''text'' (lower col)
      then Some col
      else find_statement_col lower cols)"

definition statement_column :: "(string \<Rightarrow> string) \<Rightarrow> string list \<Rightarrow> error + string" where
  "statement_column lower columns =
     (case find_statement_col lower columns of
        Some col \<Rightarrow> Inr col
      | None \<Rightarrow>
          (if length columns > 1 then Inr (columns ! 1)
           else (case columns of [] \<Rightarrow> Inl IndexError | col # _ \<Rightarrow> Inr col)))"

text \<open>
  The three lambdas of lines 72 to 80, applied to a value \<open>x\<close> of the
  \<^verbatim>\<open>classification\<close> column: \<^verbatim>\<open>x.get(tactic, {}).get('present', False)\<close> and its two
  siblings. A value that is not a dict has no \<^verbatim>\<open>get\<close>.
\<close>

fun get_present :: "string \<Rightarrow> pyval \<Rightarrow> error + pyval" where
  "get_present tactic (PDict x) =
     Inr (PBool (case map_of x tactic of Some r \<Rightarrow> present r | None \<Rightarrow> False))"
| "get_present tactic _ = Inl AttributeError"

fun get_count :: "string \<Rightarrow> pyval \<Rightarrow> error + pyval" where
  "get_count tactic (PDict x) =
     Inr (PInt (case map_of x tactic of Some r \<Rightarrow> count r | None \<Rightarrow> 0))"
| "get_count tactic _ = Inl AttributeError"

fun get_matches :: "string \<Rightarrow> pyval \<Rightarrow> error + pyval" where
  "get_matches tactic (PDict x) =
     Inr (Cell (Str (join '', '' (case map_of x tactic of Some r \<Rightarrow> matches r | None \<Rightarrow> []))))"
| "get_matches tactic _ = Inl AttributeError"

text \<open>
  One assignment \<^verbatim>\<open>df[f'{tactic}_present'] = df['classification'].apply(...)\<close>, for the
  getter and the ending \<open>sfx\<close> of the column name.
\<close>

definition set_derived ::
  "(string \<Rightarrow> pyval \<Rightarrow> error + pyval) \<Rightarrow> string \<Rightarrow> string \<Rightarrow> pyval frame \<Rightarrow> error + pyval frame" where
  "set_derived getter tactic sfx df =
     err_bind (frame_getitem df ''classification'') (\<lambda>c.
     err_bind (series_apply (getter tactic) c) (\<lambda>vs.
     Inr (dict_setitem df (tactic @ sfx) vs)))"

text \<open>The loop \<^verbatim>\<open>for tactic in dictionaries.keys()\<close> of lines 71 to 80.\<close>

fun extract_loop :: "string list \<Rightarrow> pyval frame \<Rightarrow> error + pyval frame" where
  "extract_loop [] df = Inr df"
| "extract_loop (tactic # tactics) df =
     err_bind (set_derived get_present tactic ''_present'' df) (\<lambda>df1.
     err_bind (set_derived get_count tactic ''_count'' df1) (\<lambda>df2.
     err_bind (set_derived get_matches tactic ''_matches'' df2) (\<lambda>df3.
     extract_loop tactics df3)))"

text \<open>
  \<^verbatim>\<open>process_data(df, dictionaries)\<close> returns the classified frame and the name of the
  statement column.
\<close>

definition process_data :: "(string \<Rightarrow> string) \<Rightarrow> cell frame \<Rightarrow> dictionaries \<Rightarrow> error + (pyval frame \<times> string)" where
  "process_data lower df dictionaries =
     err_bind (statement_column lower (map fst df)) (\<lambda>statement_col.
     err_bind (frame_getitem df statement_col) (\<lambda>statements.
     err_bind
       (extract_loop (dict_keys dictionaries)
          (dict_setitem (as_pyval_frame df) ''classification''
             (map (\<lambda>x. PDict (classify_statement lower x dictionaries)) statements)))
       (\<lambda>out. Inr (out, statement_col))))"


section \<open>The tactic breakdown of the results tab\<close>

text \<open>
  Lines 231 to 233: \<^verbatim>\<open>total_present = df[f'{tactic}_present'].sum()\<close> counts the rows
  that hold \<^verbatim>\<open>True\<close>, and \<^verbatim>\<open>percentage = total_present / len(df) * 100\<close>. The model
  computes the exact quotient where Python rounds to a double; nothing guards the
  division, which raises for \<^verbatim>\<open>len(df) == 0\<close>.
\<close>

fun series_sum :: "pyval list \<Rightarrow> error + nat" where
  "series_sum [] = Inr 0"
| "series_sum (PBool b # vs) = err_bind (series_sum vs) (\<lambda>n. Inr (of_bool b + n))"
| "series_sum (PInt k # vs) = err_bind (series_sum vs) (\<lambda>n. Inr (k + n))"
| "series_sum (_ # vs) = Inl TypeError"

definition tactic_percentage :: "pyval frame \<Rightarrow> string \<Rightarrow> error + rat" where
  "tactic_percentage df tactic =
     err_bind (frame_getitem df (tactic @ ''_present'')) (\<lambda>col.
     err_bind (series_sum col) (\<lambda>total_present.
     if len_frame df = 0 then Inl ZeroDivisionError
     else Inr (of_nat total_present / of_nat (len_frame df) * 100)))"

section \<open>Importing dictionaries\<close>

text \<open>
  Lines 197 to 202: \<^verbatim>\<open>imported_dict = json.load(imported_file)\<close> followed by
  \<^verbatim>\<open>st.session_state.dictionaries = imported_dict\<close>. The store therefore holds whatever
  JSON value the file parsed to. The uploaded file is given by what \<^verbatim>\<open>json.load\<close> makes
  of it: \<open>None\<close> when it is not JSON and the call raises, before the assignment.
\<close>

datatype json = JNull | JBool bool | JNum int | JStr string | JArr "json list"
  | JObj "(string \<times> json) list"

record session_state =
  dictionaries_store :: json
  classified_data :: "pyval frame option"

definition import_dictionaries :: "json option \<Rightarrow> session_state \<Rightarrow> error + session_state" where
  "import_dictionaries imported_file st =
     (case imported_file of
        None \<Rightarrow> Inl JSONDecodeError
      | Some imported_dict \<Rightarrow> Inr (st\<lparr>dictionaries_store := imported_dict\<rparr>))"

text \<open>A dictionary as the JSON value \<^verbatim>\<open>json.dumps\<close> exports.\<close>

definition json_of_dictionaries :: "dictionaries \<Rightarrow> json" where
  "json_of_dictionaries d = JObj (map (\<lambda>item. (fst item, JArr (map JStr (snd item)))) d)"

text \<open>
  The shape the specification asks of an import payload: an object whose values are lists
  of strings. (The keys of a JSON object are strings.)
\<close>

definition is_str :: "json \<Rightarrow> bool" where
  "is_str j = (case j of JStr _ \<Rightarrow> True | _ \<Rightarrow> False)"

definition is_str_list :: "json \<Rightarrow> bool" where
  "is_str_list j = (case j of JArr xs \<Rightarrow> list_all is_str xs | _ \<Rightarrow> False)"

definition well_formed_payload :: "json \<Rightarrow> bool" where
  "well_formed_payload j =
     (case j of JObj items \<Rightarrow> list_all (\<lambda>item. is_str_list (snd item)) items | _ \<Rightarrow> False)"

section \<open>The other two pages\<close>






text \<open>
  \<^verbatim>\<open>_detect_statement_column\<close> of pages/codex\_project\_dictionary.py: the first column
  whose lower-cased name is \<^verbatim>\<open>statement\<close>, else \<^verbatim>\<open>None\<close>.
\<close>

fun detect_statement_column :: "(string \<Rightarrow> string) \<Rightarrow> string list \<Rightarrow> string option" where
  "detect_statement_column lower [] = None"
| "detect_statement_column lower (col # cols) =
     (if lower col = ''statement'' then Some col else detect_statement_column lower cols)"







section \<open>The resolution chain as the specification words it\<close>

text \<open>
  Written from the specification's sentence, to be compared with \<open>statement_column\<close>:
  an exact case-insensitive match on \<^verbatim>\<open>statement\<close>; else the first column whose name
  contains \<^verbatim>\<open>statement\<close> or \<^verbatim>\<open>text\<close>; else the second column, or the first when there
  is only one.
\<close>

definition spec_statement_field :: "(string \<Rightarrow> string) \<Rightarrow> string list \<Rightarrow> string option" where
  "spec_statement_field lower columns =
     (case find (\<lambda>col. lower col = ''statement'') columns of
        Some col \<Rightarrow> Some col
      | None \<Rightarrow>
          (case find (\<lambda>col. str_contains ''statement'' (lower col) \<or> str_contains ''text'' (lower col))
                  columns of
             Some col \<Rightarrow> Some col
           | None \<Rightarrow>
               (case columns of [] \<Rightarrow> None | [col] \<Rightarrow> Some col | _ # col # _ \<Rightarrow> Some col)))"

section \<open>Auxiliary notions for the proofs\<close>

text \<open>The entry the outer loop stores for one tactic.\<close>

definition tactic_entry :: "(string \<Rightarrow> string) \<Rightarrow> string \<Rightarrow> string \<times> string list \<Rightarrow> string \<times> match_result" where
  "tactic_entry lower text_lower item =
     (fst item,
      \<lparr>present = length (keyword_loop lower text_lower (snd item) []) > 0,
       count = length (keyword_loop lower text_lower (snd item) []),
       matches = keyword_loop lower text_lower (snd item) []\<rparr>)"

text \<open>The invariant of one stored result.\<close>

definition consistent :: "match_result \<Rightarrow> bool" where
  "consistent r \<longleftrightarrow>
     count r = length (matches r) \<and> present r = (count r > 0) \<and> (count r > 0) = (matches r \<noteq> [])"





section \<open>Facts about strings and dictionaries\<close>

lemma str_contains_iff: "str_contains needle hay \<longleftrightarrow> (\<exists>ps ss. hay = ps @ needle @ ss)"
proof (induction hay)
  case Nil
  then show ?case by auto
next
  case (Cons c hay)
  have "(\<exists>ps ss. c # hay = ps @ needle @ ss) \<longleftrightarrow> sublist needle (c # hay)"
    by (simp add: sublist_def)
  also have "\<dots> \<longleftrightarrow> prefix needle (c # hay) \<or> sublist needle hay"
    by (rule sublist_Cons_right)
  finally show ?case using Cons by (simp add: sublist_def)
qed

lemma dict_setitem_fresh: "k \<notin> set (map fst d) \<Longrightarrow> dict_setitem d k v = d @ [(k, v)]"
  by (induction d) auto

lemma set_dict_setitem: "set (dict_setitem d k v) \<subseteq> insert (k, v) (set d)"
  by (induction d) (auto split: if_splits)

lemma keyword_loop_filter:
  "keyword_loop lower text_lower kws acc =
     acc @ filter (\<lambda>keyword. str_contains (lower keyword) text_lower) kws"
  by (induction kws arbitrary: acc) auto

lemma tactic_loop_distinct:
  "distinct (map fst items) \<Longrightarrow> set (map fst items) \<inter> set (map fst results) = {} \<Longrightarrow>
   tactic_loop lower text_lower items results = results @ map (tactic_entry lower text_lower) items"
proof (induction items arbitrary: results)
  case Nil
  then show ?case by simp
next
  case (Cons item items)
  obtain tac kws where item: "item = (tac, kws)" by (cases item)
  let ?r = "snd (tactic_entry lower text_lower item)"
  have fresh: "tac \<notin> set (map fst results)"
    using Cons.prems(2) item by auto
  have step: "dict_setitem results tac ?r = results @ [(tac, ?r)]"
    using fresh by (rule dict_setitem_fresh)
  have d: "distinct (map fst items)" using Cons.prems(1) by simp
  have disj: "set (map fst items) \<inter> set (map fst (results @ [(tac, ?r)])) = {}"
    using Cons.prems item by auto
  have "tactic_loop lower text_lower (item # items) results =
          tactic_loop lower text_lower items (dict_setitem results tac ?r)"
    by (simp add: item tactic_entry_def Let_def)
  also have "\<dots> = tactic_loop lower text_lower items (results @ [(tac, ?r)])"
    by (simp only: step)
  also have "\<dots> = (results @ [(tac, ?r)]) @ map (tactic_entry lower text_lower) items"
    using d disj by (rule Cons.IH)
  also have "\<dots> = results @ map (tactic_entry lower text_lower) (item # items)"
    by (simp add: item tactic_entry_def)
  finally show ?case .
qed

lemma tactic_loop_consistent:
  "list_all (\<lambda>e. consistent (snd e)) results \<Longrightarrow>
   list_all (\<lambda>e. consistent (snd e)) (tactic_loop lower text_lower items results)"
proof (induction items arbitrary: results)
  case Nil
  then show ?case by simp
next
  case (Cons item items)
  obtain tac kws where item: "item = (tac, kws)" by (cases item)
  let ?r = "snd (tactic_entry lower text_lower item)"
  have r: "consistent ?r" by (simp add: consistent_def tactic_entry_def)
  have "list_all (\<lambda>e. consistent (snd e)) (dict_setitem results tac ?r)"
    using set_dict_setitem [of results tac ?r] Cons.prems r
    by (auto simp: list_all_iff)
  then have "list_all (\<lambda>e. consistent (snd e))
               (tactic_loop lower text_lower items (dict_setitem results tac ?r))"
    by (rule Cons.IH)
  then show ?case by (simp add: item tactic_entry_def Let_def)
qed

lemma str_contains_sublist: "str_contains needle hay = sublist needle hay"
  by (simp add: str_contains_iff sublist_def)

lemma tactic_entry_filter:
  "tactic_entry lower text_lower item =
     (fst item,
      \<lparr>present = length (filter (\<lambda>keyword. sublist (lower keyword) text_lower) (snd item)) > 0,
       count = length (filter (\<lambda>keyword. sublist (lower keyword) text_lower) (snd item)),
       matches = filter (\<lambda>keyword. sublist (lower keyword) text_lower) (snd item)\<rparr>)"
  by (simp add: tactic_entry_def keyword_loop_filter str_contains_sublist)

lemma fst_tactic_entry: "map fst (map (tactic_entry lower text_lower) d) = map fst d"
  by (simp add: tactic_entry_def)

lemma classify_statement_entries:
  assumes "s \<noteq> []" and "distinct (map fst d)"
  shows "classify_statement lower (Str s) d = map (tactic_entry lower (lower s)) d"
  using assms tactic_loop_distinct [where items = d and results = "[]" and text_lower = "lower s"]
  by (simp add: classify_statement_def)

lemma classify_statement_lookup:
  assumes "s \<noteq> []" and "distinct (map fst d)" and "(tactic, kws) \<in> set d"
  shows "map_of (classify_statement lower (Str s) d) tactic = Some (snd (tactic_entry lower (lower s) (tactic, kws)))"
proof -
  have "distinct (map fst (map (tactic_entry lower (lower s)) d))"
    using assms(2) by (simp only: fst_tactic_entry)
  moreover have "(tactic, snd (tactic_entry lower (lower s) (tactic, kws))) \<in> set (map (tactic_entry lower (lower s)) d)"
    using assms(3) by (force simp: tactic_entry_def)
  ultimately have "map_of (map (tactic_entry lower (lower s)) d) tactic = Some (snd (tactic_entry lower (lower s) (tactic, kws)))"
    by (rule map_of_is_SomeI)
  then show ?thesis by (simp only: classify_statement_entries [OF assms(1) assms(2)])
qed

text \<open>
  The result depends on \<open>lower\<close> only through what it makes of the statement and of the
  keywords, so on ASCII input any function that agrees with \<open>ascii_lower\<close> there gives the
  result \<open>ascii_lower\<close> gives.
\<close>

lemma keyword_loop_cong:
  "(\<And>kw. kw \<in> set kws \<Longrightarrow> f kw = g kw) \<Longrightarrow>
   keyword_loop f text_lower kws acc = keyword_loop g text_lower kws acc"
  by (induction kws arbitrary: acc) simp_all

lemma tactic_loop_cong:
  "(\<And>item kw. item \<in> set items \<Longrightarrow> kw \<in> set (snd item) \<Longrightarrow> f kw = g kw) \<Longrightarrow>
   tactic_loop f text_lower items results = tactic_loop g text_lower items results"
proof (induction items arbitrary: results)
  case Nil
  then show ?case by simp
next
  case (Cons item items)
  obtain tac kws where item: "item = (tac, kws)" by (cases item)
  have kw: "keyword_loop f text_lower kws [] = keyword_loop g text_lower kws []"
  proof (rule keyword_loop_cong)
    fix kw assume "kw \<in> set kws"
    then show "f kw = g kw" using Cons.prems [of item kw] item by simp
  qed
  have "\<And>results. tactic_loop f text_lower items results = tactic_loop g text_lower items results"
  proof (rule Cons.IH)
    fix it kw assume "it \<in> set items" and "kw \<in> set (snd it)"
    then show "f kw = g kw" using Cons.prems [of it kw] by simp
  qed
  then show ?case by (simp add: item kw)
qed

lemma classify_statement_ascii:
  assumes "lower_ascii_ok lower" and "list_all is_ascii (str_of x)"
    and "list_all (\<lambda>item. list_all (list_all is_ascii) (snd item)) d"
  shows "classify_statement lower x d = classify_statement ascii_lower x d"
proof -
  have st: "lower (str_of x) = ascii_lower (str_of x)"
    using assms(1,2) by (simp add: lower_ascii_ok_def)
  have "tactic_loop lower (ascii_lower (str_of x)) d [] =
          tactic_loop ascii_lower (ascii_lower (str_of x)) d []"
  proof (rule tactic_loop_cong)
    fix item kw
    assume "item \<in> set d" and "kw \<in> set (snd item)"
    then have "list_all is_ascii kw" using assms(3) by (auto simp: list_all_iff)
    then show "lower kw = ascii_lower kw" using assms(1) by (simp add: lower_ascii_ok_def)
  qed
  then show ?thesis by (simp add: classify_statement_def st)
qed

lemma lower_ascii_ok_ascii_lower: "lower_ascii_ok ascii_lower"
  by (simp add: lower_ascii_ok_def)

lemma find_statement_col_ascii:
  "lower_ascii_ok lower \<Longrightarrow> list_all (list_all is_ascii) cols \<Longrightarrow>
   find_statement_col lower cols = find_statement_col ascii_lower cols"
  by (induction cols) (simp_all add: lower_ascii_ok_def)

lemma statement_column_ascii:
  "lower_ascii_ok lower \<Longrightarrow> list_all (list_all is_ascii) cols \<Longrightarrow>
   statement_column lower cols = statement_column ascii_lower cols"
  by (simp add: statement_column_def find_statement_col_ascii)

lemma detect_statement_column_ascii:
  "lower_ascii_ok lower \<Longrightarrow> list_all (list_all is_ascii) cols \<Longrightarrow>
   detect_statement_column lower cols = detect_statement_column ascii_lower cols"
  by (induction cols) (simp_all add: lower_ascii_ok_def)

lemma process_data_ascii:
  assumes ok: "lower_ascii_ok lower"
    and cols: "list_all (list_all is_ascii) (map fst df)"
    and cells: "list_all (\<lambda>c. list_all (\<lambda>x. list_all is_ascii (str_of x)) (snd c)) df"
    and dict: "list_all (\<lambda>item. list_all (list_all is_ascii) (snd item)) dictionaries"
  shows "process_data lower df dictionaries = process_data ascii_lower df dictionaries"
proof -
  have sc: "statement_column lower (map fst df) = statement_column ascii_lower (map fst df)"
    using ok cols by (rule statement_column_ascii)
  have cls: "map (\<lambda>x. PDict (classify_statement lower x dictionaries)) statements =
             map (\<lambda>x. PDict (classify_statement ascii_lower x dictionaries)) statements"
    if "map_of df col = Some statements" for col statements
  proof (rule map_cong [OF refl])
    fix x assume "x \<in> set statements"
    moreover have "(col, statements) \<in> set df" using that by (rule map_of_SomeD)
    ultimately have "list_all is_ascii (str_of x)"
      using cells by (auto simp: list_all_iff)
    with ok have "classify_statement lower x dictionaries = classify_statement ascii_lower x dictionaries"
      using dict by (rule classify_statement_ascii)
    then show "PDict (classify_statement lower x dictionaries) =
               PDict (classify_statement ascii_lower x dictionaries)"
      by simp
  qed
  show ?thesis
    unfolding process_data_def sc
    by (auto simp: err_bind_def frame_getitem_def cls split: sum.splits option.splits)
qed

section \<open>The classification of one statement\<close>

text \<open>
  C1. For a statement that is neither empty nor missing, and dictionaries with distinct
  tactic names, \<open>classify_statement\<close> lower-cases the statement and stores, for every tactic
  in dictionary order, exactly the keywords of that tactic whose lower-cased form is a
  substring of the lower-cased statement, in the order of the keyword list; \<open>count\<close> is
  the number of these keywords and \<open>present\<close> says that it is positive. This holds for
  every lower-casing function. For the dictionary
  \<^verbatim>\<open>{"urgency_marketing": ["limited time", "hurry"]}\<close> and the statement
  \<^verbatim>\<open>"Hurry! Limited time offer"\<close>, all ASCII, the result is present, count 2, matches
  \<^verbatim>\<open>["limited time", "hurry"]\<close>: dictionary order, not text order.
\<close>

theorem classify_statement_collects:
  assumes "statement \<noteq> []" and "distinct (map fst dictionaries)"
  shows "classify_statement lower (Str statement) dictionaries =
           map (\<lambda>(tactic, kws).
                  (tactic,
                   \<lparr>present = length (filter (\<lambda>keyword. sublist (lower keyword) (lower statement)) kws) > 0,
                    count = length (filter (\<lambda>keyword. sublist (lower keyword) (lower statement)) kws),
                    matches = filter (\<lambda>keyword. sublist (lower keyword) (lower statement)) kws\<rparr>))
               dictionaries
         \<and> (lower_ascii_ok lower \<longrightarrow>
              classify_statement lower (Str ''Hurry! Limited time offer'')
                [(''urgency_marketing'', [''limited time'', ''hurry''])] =
                [(''urgency_marketing'',
                  \<lparr>present = True, count = 2, matches = [''limited time'', ''hurry'']\<rparr>)])"
proof (intro conjI impI)
  have "classify_statement lower (Str statement) dictionaries =
          map (tactic_entry lower (lower statement)) dictionaries"
    using assms by (rule classify_statement_entries)
  also have "\<dots> = map (\<lambda>(tactic, kws).
                  (tactic,
                   \<lparr>present = length (filter (\<lambda>keyword. sublist (lower keyword) (lower statement)) kws) > 0,
                    count = length (filter (\<lambda>keyword. sublist (lower keyword) (lower statement)) kws),
                    matches = filter (\<lambda>keyword. sublist (lower keyword) (lower statement)) kws\<rparr>))
               dictionaries"
    by (rule map_cong) (auto simp: tactic_entry_filter)
  finally show "classify_statement lower (Str statement) dictionaries = \<dots>" .
next
  assume ok: "lower_ascii_ok lower"
  have "classify_statement lower (Str ''Hurry! Limited time offer'')
          [(''urgency_marketing'', [''limited time'', ''hurry''])] =
        classify_statement ascii_lower (Str ''Hurry! Limited time offer'')
          [(''urgency_marketing'', [''limited time'', ''hurry''])]"
    using ok by (rule classify_statement_ascii) (simp_all add: is_ascii_def)
  also have "\<dots> = [(''urgency_marketing'',
                  \<lparr>present = True, count = 2, matches = [''limited time'', ''hurry'']\<rparr>)]"
    by (simp add: classify_statement_def ascii_lower_def ascii_lower_char_def)
  finally show "classify_statement lower (Str ''Hurry! Limited time offer'')
                [(''urgency_marketing'', [''limited time'', ''hurry''])] =
                [(''urgency_marketing'',
                  \<lparr>present = True, count = 2, matches = [''limited time'', ''hurry'']\<rparr>)]" .
qed

theorem classify_statement_collects_witness:
  "''Act now, VIP!'' \<noteq> [] \<and>
   distinct (map fst [(''urgency_marketing'', [''act now'', ''hurry'']), (''exclusive_marketing'', [''vip''])]) \<and>
   lower_ascii_ok ascii_lower \<and>
   classify_statement ascii_lower (Str ''Act now, VIP!'')
       [(''urgency_marketing'', [''act now'', ''hurry'']), (''exclusive_marketing'', [''vip''])] =
     [(''urgency_marketing'', \<lparr>present = True, count = 1, matches = [''act now'']\<rparr>),
      (''exclusive_marketing'', \<lparr>present = True, count = 1, matches = [''vip'']\<rparr>)] \<and>
   classify_statement ascii_lower (Str ''Hurry! Limited time offer'')
       [(''urgency_marketing'', [''limited time'', ''hurry''])] =
     [(''urgency_marketing'', \<lparr>present = True, count = 2, matches = [''limited time'', ''hurry'']\<rparr>)]"
proof -
  have h1: "''Act now, VIP!'' \<noteq> []" by simp
  have h2: "distinct (map fst [(''urgency_marketing'', [''act now'', ''hurry'']), (''exclusive_marketing'', [''vip''])])"
    by simp
  have h3: "lower_ascii_ok ascii_lower" by (rule lower_ascii_ok_ascii_lower)
  have ev: "map (\<lambda>(tactic, kws).
                  (tactic,
                   \<lparr>present = length (filter (\<lambda>keyword. sublist (ascii_lower keyword) (ascii_lower ''Act now, VIP!'')) kws) > 0,
                    count = length (filter (\<lambda>keyword. sublist (ascii_lower keyword) (ascii_lower ''Act now, VIP!'')) kws),
                    matches = filter (\<lambda>keyword. sublist (ascii_lower keyword) (ascii_lower ''Act now, VIP!'')) kws\<rparr>))
               [(''urgency_marketing'', [''act now'', ''hurry'']), (''exclusive_marketing'', [''vip''])] =
     [(''urgency_marketing'', \<lparr>present = True, count = 1, matches = [''act now'']\<rparr>),
      (''exclusive_marketing'', \<lparr>present = True, count = 1, matches = [''vip'']\<rparr>)]"
    by code_simp
  note collects = classify_statement_collects [OF h1 h2, where lower = ascii_lower]
  from collects have a:
    "classify_statement ascii_lower (Str ''Act now, VIP!'')
       [(''urgency_marketing'', [''act now'', ''hurry'']), (''exclusive_marketing'', [''vip''])] =
     [(''urgency_marketing'', \<lparr>present = True, count = 1, matches = [''act now'']\<rparr>),
      (''exclusive_marketing'', \<lparr>present = True, count = 1, matches = [''vip'']\<rparr>)]"
    unfolding ev by (rule conjunct1)
  from collects have "lower_ascii_ok ascii_lower \<longrightarrow>
     classify_statement ascii_lower (Str ''Hurry! Limited time offer'')
       [(''urgency_marketing'', [''limited time'', ''hurry''])] =
     [(''urgency_marketing'', \<lparr>present = True, count = 2, matches = [''limited time'', ''hurry'']\<rparr>)]"
    by (rule conjunct2)
  then have b:
    "classify_statement ascii_lower (Str ''Hurry! Limited time offer'')
       [(''urgency_marketing'', [''limited time'', ''hurry''])] =
     [(''urgency_marketing'', \<lparr>present = True, count = 2, matches = [''limited time'', ''hurry'']\<rparr>)]"
    using h3 by (rule mp)
  from h1 h2 h3 a b show ?thesis by (intro conjI)
qed

text \<open>
  C2. In every result \<open>classify_statement\<close> stores, for any statement, any dictionaries
  and any lower-casing function, the three fields agree: \<open>present\<close> holds exactly when
  \<open>count\<close> is positive, which is exactly when \<open>matches\<close> is not empty.
\<close>

theorem classify_statement_consistent:
  "\<forall>(tactic, r) \<in> set (classify_statement lower statement dictionaries).
     present r = (count r > 0) \<and> (count r > 0) = (length (matches r) > 0)"
proof -
  have "list_all (\<lambda>e. consistent (snd e)) (classify_statement lower statement dictionaries)"
    using tactic_loop_consistent [where results = "[]"] by (simp add: classify_statement_def)
  then show ?thesis by (auto simp: list_all_iff consistent_def)
qed

theorem classify_statement_consistent_witness:
  "(''urgency_marketing'', \<lparr>present = True, count = 2, matches = [''limited time'', ''hurry'']\<rparr>)
     \<in> set (classify_statement ascii_lower (Str ''Hurry! Limited time offer'')
              [(''urgency_marketing'', [''limited time'', ''hurry''])])
   \<and> present \<lparr>present = True, count = 2, matches = [''limited time'', ''hurry'']\<rparr>
       = (count \<lparr>present = True, count = 2, matches = [''limited time'', ''hurry'']\<rparr> > 0)"
proof -
  have mem: "(''urgency_marketing'', \<lparr>present = True, count = 2, matches = [''limited time'', ''hurry'']\<rparr>)
     \<in> set (classify_statement ascii_lower (Str ''Hurry! Limited time offer'')
              [(''urgency_marketing'', [''limited time'', ''hurry''])])"
    by (simp add: classify_statement_def ascii_lower_def ascii_lower_char_def)
  have "present \<lparr>present = True, count = 2, matches = [''limited time'', ''hurry'']\<rparr>
       = (count \<lparr>present = True, count = 2, matches = [''limited time'', ''hurry'']\<rparr> > 0)"
    using bspec [OF classify_statement_consistent mem] by (simp only: prod.case)
  with mem show ?thesis by (intro conjI)
qed

lemma tactic_entry_matches:
  "matches (snd (tactic_entry lower text_lower (tac, kws))) =
     filter (\<lambda>keyword. sublist (lower keyword) text_lower) kws"
  by (simp add: tactic_entry_filter)


text \<open>
  C10. For a statement that is neither empty nor missing, the result of a tactic holds
  the keywords as the dictionary spells them: \<open>matches\<close> is the keyword list of the tactic
  filtered by the containment test, so each match is an entry of that list unchanged,
  although the test compares lower-cased strings, whatever the lower-casing function. A
  dictionary entry \<^verbatim>\<open>"VIP"\<close> found in \<^verbatim>\<open>"Join the vip lounge"\<close> is reported as
  \<^verbatim>\<open>"VIP"\<close>.
\<close>

theorem matches_keep_dictionary_casing:
  assumes "statement \<noteq> []" and "distinct (map fst dictionaries)"
    and "(tactic, kws) \<in> set dictionaries"
  shows "(\<exists>r. map_of (classify_statement lower (Str statement) dictionaries) tactic = Some r \<and>
              matches r = filter (\<lambda>keyword. sublist (lower keyword) (lower statement)) kws \<and>
              set (matches r) \<subseteq> set kws)
         \<and> (lower_ascii_ok lower \<longrightarrow>
              classify_statement lower (Str ''Join the vip lounge'') [(''exclusive_marketing'', [''VIP''])] =
                [(''exclusive_marketing'', \<lparr>present = True, count = 1, matches = [''VIP'']\<rparr>)])"
proof (intro conjI impI)
  let ?r = "snd (tactic_entry lower (lower statement) (tactic, kws))"
  have "map_of (classify_statement lower (Str statement) dictionaries) tactic = Some ?r"
    using assms by (rule classify_statement_lookup)
  moreover have "matches ?r = filter (\<lambda>keyword. sublist (lower keyword) (lower statement)) kws"
    by (rule tactic_entry_matches)
  moreover have "set (matches ?r) \<subseteq> set kws"
    by (simp add: tactic_entry_matches)
  ultimately show "\<exists>r. map_of (classify_statement lower (Str statement) dictionaries) tactic = Some r \<and>
              matches r = filter (\<lambda>keyword. sublist (lower keyword) (lower statement)) kws \<and>
              set (matches r) \<subseteq> set kws"
    by blast
next
  assume ok: "lower_ascii_ok lower"
  have "classify_statement lower (Str ''Join the vip lounge'') [(''exclusive_marketing'', [''VIP''])] =
        classify_statement ascii_lower (Str ''Join the vip lounge'') [(''exclusive_marketing'', [''VIP''])]"
    using ok by (rule classify_statement_ascii) (simp_all add: is_ascii_def)
  also have "\<dots> = [(''exclusive_marketing'', \<lparr>present = True, count = 1, matches = [''VIP'']\<rparr>)]"
    by (simp add: classify_statement_def ascii_lower_def ascii_lower_char_def)
  finally show "classify_statement lower (Str ''Join the vip lounge'') [(''exclusive_marketing'', [''VIP''])] =
                [(''exclusive_marketing'', \<lparr>present = True, count = 1, matches = [''VIP'']\<rparr>)]" .
qed

theorem matches_keep_dictionary_casing_witness:
  "''VIP sale'' \<noteq> [] \<and> distinct (map fst [(''exclusive_marketing'', [''Vip'', ''Premium''])]) \<and>
   (''exclusive_marketing'', [''Vip'', ''Premium'']) \<in> set [(''exclusive_marketing'', [''Vip'', ''Premium''])] \<and>
   lower_ascii_ok ascii_lower \<and>
   (\<exists>r. map_of (classify_statement ascii_lower (Str ''VIP sale'') [(''exclusive_marketing'', [''Vip'', ''Premium''])])
            ''exclusive_marketing'' = Some r \<and> matches r = [''Vip'']) \<and>
   classify_statement ascii_lower (Str ''Join the vip lounge'') [(''exclusive_marketing'', [''VIP''])] =
     [(''exclusive_marketing'', \<lparr>present = True, count = 1, matches = [''VIP'']\<rparr>)]"
proof -
  have h1: "''VIP sale'' \<noteq> []" by simp
  have h2: "distinct (map fst [(''exclusive_marketing'', [''Vip'', ''Premium''])])" by simp
  have h3: "(''exclusive_marketing'', [''Vip'', ''Premium'']) \<in> set [(''exclusive_marketing'', [''Vip'', ''Premium''])]"
    by simp
  have h4: "lower_ascii_ok ascii_lower" by (rule lower_ascii_ok_ascii_lower)
  have ev: "filter (\<lambda>keyword. sublist (ascii_lower keyword) (ascii_lower ''VIP sale'')) [''Vip'', ''Premium''] = [''Vip'']"
    by code_simp
  note casing = matches_keep_dictionary_casing [OF h1 h2 h3, where lower = ascii_lower]
  from casing
  have a: "\<exists>r. map_of (classify_statement ascii_lower (Str ''VIP sale'') [(''exclusive_marketing'', [''Vip'', ''Premium''])])
            ''exclusive_marketing'' = Some r \<and> matches r = [''Vip'']"
    unfolding ev by blast
  from casing have "lower_ascii_ok ascii_lower \<longrightarrow>
     classify_statement ascii_lower (Str ''Join the vip lounge'') [(''exclusive_marketing'', [''VIP''])] =
     [(''exclusive_marketing'', \<lparr>present = True, count = 1, matches = [''VIP'']\<rparr>)]"
    by (rule conjunct2)
  then have b: "classify_statement ascii_lower (Str ''Join the vip lounge'') [(''exclusive_marketing'', [''VIP''])] =
     [(''exclusive_marketing'', \<lparr>present = True, count = 1, matches = [''VIP'']\<rparr>)]"
    using h4 by (rule mp)
  from h1 h2 h3 h4 a b show ?thesis by (intro conjI)
qed




text \<open>
  C3, as the specification states it, fails: for a missing statement \<open>classify_statement\<close>
  returns the empty dict, which has no entry for any tactic of the dictionary.
\<close>

theorem missing_statement_has_no_entries:
  "classify_statement ascii_lower NaN [(''exclusive_marketing'', [''vip''])] = [] \<and>
   map_of (classify_statement ascii_lower NaN [(''exclusive_marketing'', [''vip''])]) ''exclusive_marketing''
     \<noteq> Some \<lparr>present = False, count = 0, matches = []\<rparr>"
  by (simp add: classify_statement_def)

text \<open>
  C3, amended. For a missing or empty statement and any dictionaries \<open>classify_statement\<close>
  returns the empty dict and raises nothing, whatever the lower-casing function; the three
  reads of \<open>process_data\<close>, with their defaults, then give for every tactic \<^verbatim>\<open>False\<close>,
  \<^verbatim>\<open>0\<close> and the empty string (the join of no matches), again without an error.
\<close>

theorem missing_statement_defaults:
  assumes "statement = NaN \<or> statement = Str []"
  shows "classify_statement lower statement dictionaries = [] \<and>
         get_present tactic (PDict (classify_statement lower statement dictionaries)) = Inr (PBool False) \<and>
         get_count tactic (PDict (classify_statement lower statement dictionaries)) = Inr (PInt 0) \<and>
         get_matches tactic (PDict (classify_statement lower statement dictionaries)) = Inr (Cell (Str []))"
proof -
  have "isna_or_not statement" using assms by auto
  then have "classify_statement lower statement dictionaries = []"
    by (simp add: classify_statement_def)
  then show ?thesis by simp
qed

theorem missing_statement_defaults_witness:
  "(Str [] = NaN \<or> Str [] = Str []) \<and>
   classify_statement ascii_lower (Str []) default_dictionaries = [] \<and>
   get_present ''urgency_marketing'' (PDict (classify_statement ascii_lower (Str []) default_dictionaries)) = Inr (PBool False) \<and>
   get_count ''urgency_marketing'' (PDict (classify_statement ascii_lower (Str []) default_dictionaries)) = Inr (PInt 0) \<and>
   get_matches ''urgency_marketing'' (PDict (classify_statement ascii_lower (Str []) default_dictionaries)) = Inr (Cell (Str []))"
proof -
  have h: "Str [] = NaN \<or> Str [] = Str []" by simp
  from missing_statement_defaults [OF h] h show ?thesis by (intro conjI) simp_all
qed

section \<open>Resolving the statement column\<close>

lemma find_statement_col_find:
  "find_statement_col lower cols =
     find (\<lambda>col. sublist ''statement'' (lower col) \<or> sublist ''text'' (lower col)) cols"
  by (induction cols) (simp_all add: str_contains_sublist)

lemma detect_statement_column_find:
  "detect_statement_column lower cols = find (\<lambda>col. lower col = ''statement'') cols"
  by (induction cols) simp_all

lemma positional_default:
  "(if length cols > 1 then Inr (cols ! 1)
    else (case cols of [] \<Rightarrow> Inl IndexError | col # _ \<Rightarrow> Inr col)) =
   (case cols of [] \<Rightarrow> Inl IndexError | [col] \<Rightarrow> Inr col | _ # col # _ \<Rightarrow> Inr col)"
  by (cases cols rule: list.exhaust [case_product list.exhaust]) (auto split: list.splits)

lemma statement_column_find:
  "statement_column lower cols =
     (case find (\<lambda>col. sublist ''statement'' (lower col) \<or> sublist ''text'' (lower col)) cols of
        Some col \<Rightarrow> Inr col
      | None \<Rightarrow> (case cols of [] \<Rightarrow> Inl IndexError | [col] \<Rightarrow> Inr col | _ # col # _ \<Rightarrow> Inr col))"
  unfolding statement_column_def find_statement_col_find positional_default ..

lemma err_bind_Inr: "err_bind m f = Inr y \<Longrightarrow> \<exists>x. m = Inr x \<and> f x = Inr y"
  by (cases m) (simp_all add: err_bind_def)

lemma process_data_reports:
  assumes "process_data lower df dictionaries = Inr (out, name)"
  shows "statement_column lower (map fst df) = Inr name"
proof -
  from assms obtain c where c: "statement_column lower (map fst df) = Inr c"
    and r1: "err_bind (frame_getitem df c) (\<lambda>statements.
       err_bind
         (extract_loop (dict_keys dictionaries)
            (dict_setitem (as_pyval_frame df) ''classification''
               (map (\<lambda>x. PDict (classify_statement lower x dictionaries)) statements)))
         (\<lambda>out. Inr (out, c))) = Inr (out, name)"
    unfolding process_data_def by (blast dest: err_bind_Inr)
  from r1 obtain ss where r2: "err_bind
         (extract_loop (dict_keys dictionaries)
            (dict_setitem (as_pyval_frame df) ''classification''
               (map (\<lambda>x. PDict (classify_statement lower x dictionaries)) ss)))
         (\<lambda>out. Inr (out, c)) = Inr (out, name)"
    by (blast dest: err_bind_Inr)
  from r2 obtain o' where "Inr (o', c) = (Inr (out, name) :: error + (pyval frame \<times> string))"
    by (blast dest: err_bind_Inr)
  then have "c = name" by simp
  with c show ?thesis by simp
qed

text \<open>
  C5, as the specification states it, fails on \<open>process_data\<close>: an exactly named
  \<^verbatim>\<open>Statement\<close> column has no priority over an earlier column whose name contains
  \<^verbatim>\<open>text\<close>, such as \<^verbatim>\<open>context\<close>. It fails on the codex page as well, which knows the
  exact match only and has no fallback.
\<close>

theorem context_column_wins:
  "statement_column ascii_lower [''context'', ''Statement''] = Inr ''context'' \<and>
   spec_statement_field ascii_lower [''context'', ''Statement''] = Some ''Statement'' \<and>
   detect_statement_column ascii_lower [''id'', ''text''] = None \<and>
   spec_statement_field ascii_lower [''id'', ''text''] = Some ''text''"
  by code_simp

text \<open>
  C5, amended. \<open>process_data\<close> resolves the statement column deterministically: the first
  column whose lower-cased name contains \<^verbatim>\<open>statement\<close> or \<^verbatim>\<open>text\<close>; when there is
  none, the second column, or the first when there is only one (a frame without columns
  raises \<^verbatim>\<open>IndexError\<close>); the name it resolved is the second component of what it
  returns. The exact case-insensitive match on \<^verbatim>\<open>statement\<close> is how
  \<^verbatim>\<open>_detect_statement_column\<close> of the codex page resolves, with no fallback.
\<close>

theorem statement_column_chain:
  "(case find (\<lambda>col. sublist ''statement'' (lower col) \<or> sublist ''text'' (lower col)) columns of
      Some col \<Rightarrow> statement_column lower columns = Inr col
    | None \<Rightarrow>
        statement_column lower columns =
          (case columns of [] \<Rightarrow> Inl IndexError | [col] \<Rightarrow> Inr col | _ # col # _ \<Rightarrow> Inr col))
   \<and> (process_data lower df dictionaries = Inr (out, name) \<longrightarrow> statement_column lower (map fst df) = Inr name)
   \<and> detect_statement_column lower columns = find (\<lambda>col. lower col = ''statement'') columns"
proof (intro conjI)
  show "case find (\<lambda>col. sublist ''statement'' (lower col) \<or> sublist ''text'' (lower col)) columns of
      Some col \<Rightarrow> statement_column lower columns = Inr col
    | None \<Rightarrow>
        statement_column lower columns =
          (case columns of [] \<Rightarrow> Inl IndexError | [col] \<Rightarrow> Inr col | _ # col # _ \<Rightarrow> Inr col)"
    by (simp add: statement_column_find split: option.split)
next
  show "process_data lower df dictionaries = Inr (out, name) \<longrightarrow> statement_column lower (map fst df) = Inr name"
    by (blast intro: process_data_reports)
next
  show "detect_statement_column lower columns = find (\<lambda>col. lower col = ''statement'') columns"
    by (rule detect_statement_column_find)
qed

theorem statement_column_chain_witness:
  "statement_column ascii_lower [''id'', ''Ad_Text'', ''statement''] = Inr ''Ad_Text'' \<and>
   process_data ascii_lower [(''Statement'', [Str ''hi''])] [] =
     Inr ([(''Statement'', [Cell (Str ''hi'')]), (''classification'', [PDict []])], ''Statement'') \<and>
   statement_column ascii_lower (map fst [(''Statement'', [Str ''hi''])]) = Inr ''Statement''"
proof -
  have f: "find (\<lambda>col. sublist ''statement'' (ascii_lower col) \<or> sublist ''text'' (ascii_lower col))
             [''id'', ''Ad_Text'', ''statement''] = Some ''Ad_Text''"
    by code_simp
  have pd: "process_data ascii_lower [(''Statement'', [Str ''hi''])] [] =
     Inr ([(''Statement'', [Cell (Str ''hi'')]), (''classification'', [PDict []])], ''Statement'')"
    by code_simp
  note chain = statement_column_chain [where lower = ascii_lower
      and columns = "[''id'', ''Ad_Text'', ''statement'']"
      and df = "[(''Statement'', [Str ''hi''])]" and dictionaries = "[]"
      and out = "[(''Statement'', [Cell (Str ''hi'')]), (''classification'', [PDict []])]"
      and name = "''Statement''"]
  from chain have a: "statement_column ascii_lower [''id'', ''Ad_Text'', ''statement''] = Inr ''Ad_Text''"
    unfolding f by simp
  from chain pd have b: "statement_column ascii_lower (map fst [(''Statement'', [Str ''hi''])]) = Inr ''Statement''"
    by blast
  from a pd b show ?thesis by (intro conjI)
qed



section \<open>Importing dictionaries and the tactic breakdown\<close>

text \<open>
  C7, as the specification states it, fails: a payload whose top level is a list is
  stored as the new dictionaries, and the import reports success.
\<close>

theorem import_replaces_store:
  "\<not> well_formed_payload (JArr [JNum 1]) \<and>
   import_dictionaries (Some (JArr [JNum 1]))
     \<lparr>dictionaries_store = json_of_dictionaries default_dictionaries, classified_data = None\<rparr> =
   Inr \<lparr>dictionaries_store = JArr [JNum 1], classified_data = None\<rparr>"
  by (simp add: well_formed_payload_def import_dictionaries_def)

text \<open>
  C7, amended. The import validates nothing: whatever JSON value the file holds, of the
  expected shape or not, replaces the dictionaries of the session and leaves the rest of
  the session state as it was; only a file that is not JSON fails, inside
  \<^verbatim>\<open>json.load\<close>, with the session state untouched.
\<close>

theorem import_dictionaries_unchecked:
  "import_dictionaries (Some payload) st = Inr (st\<lparr>dictionaries_store := payload\<rparr>) \<and>
   import_dictionaries None st = Inl JSONDecodeError"
  by (simp add: import_dictionaries_def)

lemma tactic_percentage_formula:
  assumes "frame_getitem df (tac @ ''_present'') = Inr col" and "series_sum col = Inr total_present"
    and "len_frame df \<noteq> 0"
  shows "tactic_percentage df tac = Inr (of_nat total_present / of_nat (len_frame df) * 100)"
  using assms by (simp add: tactic_percentage_def err_bind_def)

lemma tactic_percentage_no_rows: "len_frame df = 0 \<Longrightarrow> tactic_percentage df tac \<noteq> Inr p"
  by (auto simp: tactic_percentage_def err_bind_def split: sum.splits)

text \<open>
  C6. The breakdown computes \<^verbatim>\<open>total_present / len(df) * 100\<close>; one matching row of four
  gives 25. For the frame \<open>process_data\<close> returns on a CSV that has a header and no rows,
  \<^verbatim>\<open>len(df)\<close> is 0 and the division raises for every tactic instead of giving 0.
\<close>

theorem percentage_of_empty_dataset:
  "(case process_data ascii_lower [(''Statement'', [])] default_dictionaries of
      Inl e \<Rightarrow> False
    | Inr (df, name) \<Rightarrow>
        len_frame df = 0 \<and>
        tactic_percentage df ''urgency_marketing'' = Inl ZeroDivisionError \<and>
        tactic_percentage df ''exclusive_marketing'' = Inl ZeroDivisionError) \<and>
   (case process_data ascii_lower [(''Statement'', [Str ''Hurry!'', Str ''a'', Str ''b'', NaN])] default_dictionaries of
      Inl e \<Rightarrow> False
    | Inr (df, name) \<Rightarrow> tactic_percentage df ''urgency_marketing'' = Inr 25)"
  by code_simp

section \<open>The classified frame\<close>























section \<open>A frame without a statement column\<close>










end
